theory Spec2Isabelle
  imports Main "HOL-Library.Sublist"
begin

section \<open>The service worker of docs/service-worker.js\<close>

text \<open>
  The worker is event driven: every handler reads and writes the browser's cache
  storage and may call \<open>fetch\<close>. The embedding passes the cache storage explicitly,
  takes the network as a function from requests to what the fetch does, and returns,
  for each handler, what the promise given to \<open>respondWith\<close> settles to, the requests
  sent to the network, and the storage once every cache operation the handler started
  has finished (the calls of \<open>limitCacheSize\<close> that are not awaited included).
\<close>

subsection \<open>Strings\<close>

definition str_includes :: "string \<Rightarrow> string \<Rightarrow> bool" where
  \<comment> \<open>\<open>s.includes(sub)\<close>\<close>
  "str_includes s sub = sublist sub s"

definition endsWith :: "string \<Rightarrow> string \<Rightarrow> bool" where
  \<comment> \<open>\<open>s.endsWith(suf)\<close>\<close>
  "endsWith s suf = suffix suf s"

definition slice :: "nat \<Rightarrow> nat \<Rightarrow> 'a list \<Rightarrow> 'a list" where
  \<comment> \<open>\<open>xs.slice(start, end)\<close> for non-negative integers\<close>
  "slice start stop xs = drop start (take stop xs)"

subsection \<open>URLs, requests and responses\<close>

text \<open>
  \<open>new URL(req.url)\<close> is the browser's parser; a request carries its URL already
  parsed. For an http(s) URL without user information the serialisation \<open>href\<close> is
  the origin followed by the path, the query (with its \<open>?\<close>) and the fragment (with
  its \<open>#\<close>).
\<close>

record parsed_url =
  origin :: string
  pathname :: string
  search :: string
  hash :: string

definition href :: "parsed_url \<Rightarrow> string" where
  "href u = origin u @ pathname u @ search u @ hash u"

record request =
  req_url :: parsed_url
  mode :: string
  destination :: string
  headers :: "(string \<times> string) list"

definition ascii_lower :: "char \<Rightarrow> char" where
  "ascii_lower c =
     (let n = (of_char c :: nat) in if 65 \<le> n \<and> n \<le> 90 then char_of (n + 32) else c)"

definition headers_get :: "(string \<times> string) list \<Rightarrow> string \<Rightarrow> string option" where
  \<comment> \<open>\<open>headers.get(name)\<close>: the values of the headers of that name, the name compared
      without regard to case, joined by a comma and a space; \<open>None\<close> is JavaScript's \<open>null\<close>\<close>
  "headers_get hs name =
     (case map snd (filter (\<lambda>h. map ascii_lower (fst h) = map ascii_lower name) hs) of
        [] \<Rightarrow> None
      | v # vs \<Rightarrow> Some (foldl (\<lambda>a b. a @ '', '' @ b) v vs))"

record response =
  status :: nat
  statusText :: string
  res_headers :: "(string \<times> string) list"
  body :: string

definition ok :: "response \<Rightarrow> bool" where
  \<comment> \<open>\<open>res.ok\<close>\<close>
  "ok res = (200 \<le> status res \<and> status res \<le> 299)"

definition new_Response :: "string \<Rightarrow> nat option \<Rightarrow> string option \<Rightarrow> (string \<times> string) list \<Rightarrow> response" where
  \<comment> \<open>\<open>new Response(body, {status, statusText, headers})\<close>: the status defaults to 200, the
      status text to the empty string, and a string body without a Content-Type gets
      the text/plain one\<close>
  "new_Response b st txt hs =
     \<lparr>status = (case st of None \<Rightarrow> 200 | Some s \<Rightarrow> s),
      statusText = (case txt of None \<Rightarrow> [] | Some t \<Rightarrow> t),
      res_headers = (if headers_get hs ''Content-Type'' = None
                     then hs @ [(''Content-Type'', ''text/plain;charset=UTF-8'')] else hs),
      body = b\<rparr>"

subsection \<open>Cache storage\<close>

text \<open>
  A cache is the list of its entries in insertion order, keyed by the request URL
  without its fragment (all requests are GET requests, the only ones a cache stores);
  the cache storage is the list of the named caches in the order of their creation.
  \<open>cache.put\<close> can reject, and every strategy awaits it inside its \<open>try\<close> block or its
  \<open>then\<close> callback, so a rejected put takes the path of a failed fetch.
\<close>

type_synonym cache = "(string \<times> response) list"
type_synonym storage = "(string \<times> cache) list"

definition url_key :: "parsed_url \<Rightarrow> string" where
  "url_key u = origin u @ pathname u @ search u"

definition cache_match :: "cache \<Rightarrow> string \<Rightarrow> response option" where
  "cache_match c k = map_of c k"

definition cache_keys :: "cache \<Rightarrow> string list" where
  "cache_keys c = map fst c"

definition entries_delete :: "string \<Rightarrow> cache \<Rightarrow> cache" where
  "entries_delete k c = filter (\<lambda>e. fst e \<noteq> k) c"

definition entries_put :: "string \<Rightarrow> response \<Rightarrow> cache \<Rightarrow> cache" where
  \<comment> \<open>an entry of the same key is removed and the new one appended\<close>
  "entries_put k r c = entries_delete k c @ [(k, r)]"

definition caches_keys :: "storage \<Rightarrow> string list" where
  "caches_keys st = map fst st"

definition caches_open :: "string \<Rightarrow> storage \<Rightarrow> storage" where
  \<comment> \<open>\<open>caches.open(name)\<close> creates the cache when there is none of that name\<close>
  "caches_open name st = (if name \<in> set (caches_keys st) then st else st @ [(name, [])])"

definition caches_delete :: "string \<Rightarrow> storage \<Rightarrow> storage" where
  "caches_delete name st = filter (\<lambda>e. fst e \<noteq> name) st"

definition cache_of :: "storage \<Rightarrow> string \<Rightarrow> cache" where
  "cache_of st name = (case map_of st name of None \<Rightarrow> [] | Some c \<Rightarrow> c)"

definition cache_update :: "string \<Rightarrow> (cache \<Rightarrow> cache) \<Rightarrow> storage \<Rightarrow> storage" where
  "cache_update name f st = map (\<lambda>e. if fst e = name then (fst e, f (snd e)) else e) st"

fun split_commas :: "string \<Rightarrow> string list" where
  "split_commas [] = [[]]"
| "split_commas (c # cs) =
     (if c = CHR '','' then [] # split_commas cs
      else (case split_commas cs of [] \<Rightarrow> [[c]] | v # vs \<Rightarrow> (c # v) # vs))"

definition trim :: "string \<Rightarrow> string" where
  \<comment> \<open>without the leading and trailing spaces and tabs\<close>
  "trim s =
     rev (dropWhile (\<lambda>c. c = CHR '' '' \<or> c = CHR 0x09)
            (rev (dropWhile (\<lambda>c. c = CHR '' '' \<or> c = CHR 0x09) s)))"

definition put_rejects :: "response \<Rightarrow> bool" where
  \<comment> \<open>the responses \<open>cache.put\<close> rejects with a TypeError: a partial response (status
      206), and one whose \<open>Vary\<close> header lists \<open>*\<close>\<close>
  "put_rejects r =
     (status r = 206 \<or>
      (case headers_get (res_headers r) ''Vary'' of
         None \<Rightarrow> False
       | Some v \<Rightarrow> ''*'' \<in> set (map trim (split_commas v))))"

definition cache_put :: "string \<Rightarrow> string \<Rightarrow> response \<Rightarrow> storage \<Rightarrow> storage option" where
  \<comment> \<open>\<open>cache.put\<close> on the cache opened under \<open>name\<close>; \<open>None\<close> when the promise rejects\<close>
  "cache_put name k r st =
     (if put_rejects r then None else Some (cache_update name (entries_put k r) st))"

definition cache_delete :: "string \<Rightarrow> string \<Rightarrow> storage \<Rightarrow> storage" where
  \<comment> \<open>\<open>cache.delete\<close> on the cache opened under \<open>name\<close>\<close>
  "cache_delete name k st = cache_update name (entries_delete k) st"

fun caches_match :: "storage \<Rightarrow> string \<Rightarrow> response option" where
  \<comment> \<open>\<open>caches.match\<close>: the first hit, over the caches in the order of their creation\<close>
  "caches_match [] k = None"
| "caches_match (e # st) k =
     (case cache_match (snd e) k of Some r \<Rightarrow> Some r | None \<Rightarrow> caches_match st k)"

subsection \<open>Constants\<close>

definition CACHE_VERSION :: string where
  "CACHE_VERSION = ''v1.0.7''"

definition STATIC_CACHE :: "string \<Rightarrow> string" where
  \<comment> \<open>the store names, as functions of the version identifier\<close>
  "STATIC_CACHE ver = ''static-'' @ ver"

definition RUNTIME_CACHE :: "string \<Rightarrow> string" where
  "RUNTIME_CACHE ver = ''runtime-'' @ ver"

definition MAX_RUNTIME_ITEMS :: nat where
  "MAX_RUNTIME_ITEMS = 50"

definition MAX_STATIC_ITEMS :: nat where
  "MAX_STATIC_ITEMS = 100"

definition OFFLINE_URL :: string where
  "OFFLINE_URL = ''./pwa/offline.html''"

subsection \<open>Trimming a cache\<close>

definition limitCacheSize :: "string \<Rightarrow> nat \<Rightarrow> storage \<Rightarrow> storage" where
  "limitCacheSize cacheName maxItems st =
     (let st1 = caches_open cacheName st;
          keys = cache_keys (cache_of st1 cacheName)
      in if length keys > maxItems
         then let keysToDelete = slice 0 (length keys - maxItems) keys
              in fold (cache_delete cacheName) keysToDelete st1
         else st1)"

subsection \<open>Activation\<close>

definition stale_caches :: "string \<Rightarrow> storage \<Rightarrow> string list" where
  \<comment> \<open>the names the activate handler calls \<open>caches.delete\<close> on\<close>
  "stale_caches ver st =
     filter (\<lambda>k. k \<noteq> STATIC_CACHE ver \<and> k \<noteq> RUNTIME_CACHE ver) (caches_keys st)"

definition activate :: "string \<Rightarrow> storage \<Rightarrow> storage" where
  "activate ver st = fold caches_delete (stale_caches ver st) st"

subsection \<open>The worker's environment and what a handler does\<close>

datatype net_outcome =
    Arrives nat response  \<comment> \<open>\<open>fetch\<close> resolves with a response after so many milliseconds\<close>
  | Fails nat             \<comment> \<open>\<open>fetch\<close> rejects after so many milliseconds\<close>
  | Hangs                 \<comment> \<open>\<open>fetch\<close> never settles\<close>

record worker =
  cache_version :: string   \<comment> \<open>the value of \<open>CACHE_VERSION\<close>\<close>
  location_origin :: string \<comment> \<open>\<open>self.location.origin\<close>\<close>
  base_url :: string        \<comment> \<open>the directory of the worker script, which relative URLs resolve against\<close>
  onLine :: bool            \<comment> \<open>\<open>navigator.onLine\<close>\<close>
  net :: "request \<Rightarrow> net_outcome"

datatype settled =
    NotIntercepted     \<comment> \<open>the handler returns without calling \<open>respondWith\<close>\<close>
  | Respond response   \<comment> \<open>the promise resolves with a response\<close>
  | Undefined          \<comment> \<open>the promise resolves with \<open>undefined\<close>\<close>
  | Rejected           \<comment> \<open>the promise rejects\<close>
  | Pending            \<comment> \<open>the promise never settles\<close>

record outcome =
  result :: settled
  fetched :: "request list"
  caches :: storage

definition resolve_url :: "string \<Rightarrow> string \<Rightarrow> string" where
  \<comment> \<open>a relative URL \<open>./p\<close> against the worker's directory\<close>
  "resolve_url base rel = (if prefix ''./'' rel then base @ drop 2 rel else base @ rel)"

subsection \<open>Helpers of the fetch handler\<close>

definition staticExtensions :: "string list" where
  "staticExtensions =
     [''.css'', ''.js'', ''.woff'', ''.woff2'', ''.ttf'', ''.eot'',
      ''.png'', ''.jpg'', ''.jpeg'', ''.gif'', ''.svg'', ''.ico'', ''.webp'']"

definition isStaticAsset :: "request \<Rightarrow> bool" where
  "isStaticAsset req =
     (let url = href (req_url req) in list_ex (\<lambda>ext. str_includes url ext) staticExtensions)"

definition normalizeNavigationUrl :: "parsed_url \<Rightarrow> parsed_url" where
  \<comment> \<open>the source returns \<open>urlObj.href\<close>; the model returns the URL it serialises\<close>
  "normalizeNavigationUrl urlObj =
     (if endsWith (pathname urlObj) ''/''
      then urlObj\<lparr>pathname := pathname urlObj @ ''index.html''\<rparr>
      else urlObj)"

definition race_timeout :: "net_outcome \<Rightarrow> response option" where
  \<comment> \<open>\<open>await Promise.race([networkPromise, timeoutPromise])\<close> with the 3000 ms timer:
      the response when the network resolves first, \<open>None\<close> when the race rejects\<close>
  "race_timeout n =
     (case n of
        Arrives t res \<Rightarrow> if t < 3000 then Some res else None
      | Fails t \<Rightarrow> None
      | Hangs \<Rightarrow> None)"

subsection \<open>Strategies\<close>

definition handleNavigation_catch :: "worker \<Rightarrow> request \<Rightarrow> response option \<Rightarrow> storage \<Rightarrow> outcome" where
  \<comment> \<open>the \<open>catch\<close> block of \<open>handleNavigation\<close>, entered with the value of \<open>cached\<close>\<close>
  "handleNavigation_catch w req cached st =
     (case cached of
        Some r \<Rightarrow> \<lparr>result = Respond r, fetched = [req], caches = st\<rparr>
      | None \<Rightarrow>
         (case caches_match st (resolve_url (base_url w) OFFLINE_URL) of
            Some offlinePage \<Rightarrow> \<lparr>result = Respond offlinePage, fetched = [req], caches = st\<rparr>
          | None \<Rightarrow>
              \<lparr>result = Respond
                 (new_Response ''Offline - Page not cached'' (Some 503)
                    (Some ''Service Unavailable'') [(''Content-Type'', ''text/plain'')]),
               fetched = [req], caches = st\<rparr>))"

definition handleNavigation :: "worker \<Rightarrow> request \<Rightarrow> storage \<Rightarrow> outcome" where
  "handleNavigation w req st =
     (let normalizedUrl = normalizeNavigationUrl (req_url req);
          cached = (case caches_match st (url_key normalizedUrl) of
                      Some r \<Rightarrow> Some r
                    | None \<Rightarrow> caches_match st (url_key (req_url req)))
      in case (if onLine w then None else cached) of
           Some r \<Rightarrow> \<lparr>result = Respond r, fetched = [], caches = st\<rparr>
         | None \<Rightarrow>
            (case race_timeout (net w req) of
               Some netRes \<Rightarrow>
                 (if ok netRes
                  then let st1 = caches_open (RUNTIME_CACHE (cache_version w)) st
                       in case cache_put (RUNTIME_CACHE (cache_version w))
                                 (url_key (req_url req)) netRes st1 of
                            Some st2 \<Rightarrow>
                              \<lparr>result = Respond netRes, fetched = [req],
                               caches = limitCacheSize (RUNTIME_CACHE (cache_version w))
                                          MAX_RUNTIME_ITEMS st2\<rparr>
                          | None \<Rightarrow> handleNavigation_catch w req cached st1
                  else \<lparr>result = Respond netRes, fetched = [req], caches = st\<rparr>)
             | None \<Rightarrow> handleNavigation_catch w req cached st))"

definition cacheFirst :: "worker \<Rightarrow> request \<Rightarrow> storage \<Rightarrow> outcome" where
  "cacheFirst w req st =
     (case caches_match st (url_key (req_url req)) of
        Some cached \<Rightarrow> \<lparr>result = Respond cached, fetched = [], caches = st\<rparr>
      | None \<Rightarrow>
         (case net w req of
            Arrives t netRes \<Rightarrow>
              (if ok netRes
               then let st1 = caches_open (STATIC_CACHE (cache_version w)) st
                    in case cache_put (STATIC_CACHE (cache_version w))
                              (url_key (req_url req)) netRes st1 of
                         Some st2 \<Rightarrow>
                           \<lparr>result = Respond netRes, fetched = [req],
                            caches = limitCacheSize (STATIC_CACHE (cache_version w))
                                       MAX_STATIC_ITEMS st2\<rparr>
                       | None \<Rightarrow>
                           \<lparr>result = Respond (new_Response ''Asset not found'' (Some 404) None []),
                            fetched = [req], caches = st1\<rparr>
               else \<lparr>result = Respond netRes, fetched = [req], caches = st\<rparr>)
          | Fails t \<Rightarrow>
              \<lparr>result = Respond (new_Response ''Asset not found'' (Some 404) None []),
               fetched = [req], caches = st\<rparr>
          | Hangs \<Rightarrow> \<lparr>result = Pending, fetched = [req], caches = st\<rparr>))"

definition networkFirst_catch :: "request \<Rightarrow> storage \<Rightarrow> outcome" where
  \<comment> \<open>the \<open>catch\<close> block of \<open>networkFirst\<close>\<close>
  "networkFirst_catch req st =
     (case caches_match st (url_key (req_url req)) of
        Some cached \<Rightarrow> \<lparr>result = Respond cached, fetched = [req], caches = st\<rparr>
      | None \<Rightarrow>
          \<lparr>result = Respond
             (new_Response ''{}'' None None [(''Content-Type'', ''application/json'')]),
           fetched = [req], caches = st\<rparr>)"

definition networkFirst :: "worker \<Rightarrow> request \<Rightarrow> storage \<Rightarrow> outcome" where
  "networkFirst w req st =
     (case net w req of
        Arrives t netRes \<Rightarrow>
          (if ok netRes
           then let st1 = caches_open (RUNTIME_CACHE (cache_version w)) st
                in case cache_put (RUNTIME_CACHE (cache_version w))
                          (url_key (req_url req)) netRes st1 of
                     Some st2 \<Rightarrow>
                       \<lparr>result = Respond netRes, fetched = [req],
                        caches = limitCacheSize (RUNTIME_CACHE (cache_version w))
                                   MAX_RUNTIME_ITEMS st2\<rparr>
                   | None \<Rightarrow> networkFirst_catch req st1
           else \<lparr>result = Respond netRes, fetched = [req], caches = st\<rparr>)
      | Fails t \<Rightarrow> networkFirst_catch req st
      | Hangs \<Rightarrow> \<lparr>result = Pending, fetched = [req], caches = st\<rparr>)"

definition staleWhileRevalidate :: "worker \<Rightarrow> request \<Rightarrow> storage \<Rightarrow> outcome" where
  \<comment> \<open>\<open>return cached || fetchPromise\<close>: the cached response when there is one, else whatever
      \<open>fetchPromise\<close> settles to, which is \<open>cached\<close> again when the fetch or the put rejects\<close>
  "staleWhileRevalidate w req st =
     (let st1 = caches_open (RUNTIME_CACHE (cache_version w)) st;
          cached = cache_match (cache_of st1 (RUNTIME_CACHE (cache_version w))) (url_key (req_url req))
      in case net w req of
           Arrives t res \<Rightarrow>
             (if ok res
              then case cache_put (RUNTIME_CACHE (cache_version w))
                          (url_key (req_url req)) res st1 of
                     Some st2 \<Rightarrow>
                       \<lparr>result = (case cached of Some c \<Rightarrow> Respond c | None \<Rightarrow> Respond res),
                        fetched = [req],
                        caches = limitCacheSize (RUNTIME_CACHE (cache_version w))
                                   MAX_RUNTIME_ITEMS st2\<rparr>
                   | None \<Rightarrow>
                       \<lparr>result = (case cached of Some c \<Rightarrow> Respond c | None \<Rightarrow> Undefined),
                        fetched = [req], caches = st1\<rparr>
              else \<lparr>result = (case cached of Some c \<Rightarrow> Respond c | None \<Rightarrow> Respond res),
                    fetched = [req], caches = st1\<rparr>)
         | Fails t \<Rightarrow>
             \<lparr>result = (case cached of Some c \<Rightarrow> Respond c | None \<Rightarrow> Undefined),
              fetched = [req], caches = st1\<rparr>
         | Hangs \<Rightarrow>
             \<lparr>result = (case cached of Some c \<Rightarrow> Respond c | None \<Rightarrow> Pending),
              fetched = [req], caches = st1\<rparr>)"

definition fetch_direct :: "worker \<Rightarrow> request \<Rightarrow> storage \<Rightarrow> outcome" where
  \<comment> \<open>\<open>event.respondWith(fetch(req))\<close>\<close>
  "fetch_direct w req st =
     \<lparr>result = (case net w req of
                  Arrives t res \<Rightarrow> Respond res
                | Fails t \<Rightarrow> Rejected
                | Hangs \<Rightarrow> Pending),
      fetched = [req], caches = st\<rparr>"

subsection \<open>The fetch handler\<close>

datatype strategy =
  Unhandled | Bypass | StaleWhileRevalidate | Navigation | CacheFirst | NetworkFirst

definition fetch_strategy :: "worker \<Rightarrow> request \<Rightarrow> strategy" where
  \<comment> \<open>the branch of the fetch listener that a request takes, in the listener's order\<close>
  "fetch_strategy w req =
     (let url = req_url req in
      if origin url \<noteq> location_origin w then Unhandled
      else if str_includes (pathname url) ''print'' \<or>
              str_includes (search url) ''print'' \<or>
              (headers_get (headers req) ''Sec-Fetch-Dest'' = Some ''empty'' \<and> mode req = ''cors'')
           then Bypass
      else if mode req = ''print'' \<or>
              (destination req = ''document'' \<and>
               headers_get (headers req) ''Sec-Fetch-Dest'' = Some ''document'')
           then Bypass
      else if str_includes (pathname url) ''/theming/'' \<or>
              str_includes (pathname url) ''/site_libs/''
           then StaleWhileRevalidate
      else if mode req = ''navigate'' then Navigation
      else if isStaticAsset req then CacheFirst
      else if endsWith (pathname url) ''.json'' then NetworkFirst
      else StaleWhileRevalidate)"

definition on_fetch :: "worker \<Rightarrow> request \<Rightarrow> storage \<Rightarrow> outcome" where
  \<comment> \<open>the fetch listener: what the branch taken passes to \<open>respondWith\<close>\<close>
  "on_fetch w req st =
     (case fetch_strategy w req of
        Unhandled \<Rightarrow> \<lparr>result = NotIntercepted, fetched = [], caches = st\<rparr>
      | Bypass \<Rightarrow> fetch_direct w req st
      | StaleWhileRevalidate \<Rightarrow> staleWhileRevalidate w req st
      | Navigation \<Rightarrow> handleNavigation w req st
      | CacheFirst \<Rightarrow> cacheFirst w req st
      | NetworkFirst \<Rightarrow> networkFirst w req st)"

subsection \<open>Example inputs\<close>

definition site :: string where
  "site = ''https://example.org''"

definition page_request :: "string \<Rightarrow> string \<Rightarrow> string \<Rightarrow> (string \<times> string) list \<Rightarrow> request" where
  \<comment> \<open>a same-origin request for a path, with its mode, destination and headers\<close>
  "page_request path m dest hs =
     \<lparr>req_url = \<lparr>origin = site, pathname = path, search = [], hash = []\<rparr>,
      mode = m, destination = dest, headers = hs\<rparr>"

definition worker_with :: "bool \<Rightarrow> net_outcome \<Rightarrow> worker" where
  \<comment> \<open>the worker as deployed at the site's root, online or not, over a network that
      treats every request alike\<close>
  "worker_with online n =
     \<lparr>cache_version = CACHE_VERSION, location_origin = site, base_url = site @ ''/'',
      onLine = online, net = (\<lambda>_. n)\<rparr>"

definition page :: "string \<Rightarrow> response" where
  "page b = \<lparr>status = 200, statusText = ''OK'', res_headers = [], body = b\<rparr>"

definition three_pages :: cache where
  "three_pages =
     [(''https://example.org/a.html'', page ''a''),
      (''https://example.org/b.html'', page ''b''),
      (''https://example.org/c.html'', page ''c'')]"

definition old_and_new_stores :: storage where
  \<comment> \<open>the storage after a bump of the version identifier from v1.0.6 to v1.0.7\<close>
  "old_and_new_stores =
     [(''static-v1.0.6'', three_pages), (''runtime-v1.0.6'', three_pages),
      (''static-v1.0.7'', three_pages), (''runtime-v1.0.7'', [])]"

definition notes_cached :: storage where
  \<comment> \<open>a runtime store holding the index document of /notes/\<close>
  "notes_cached =
     [(''runtime-v1.0.7'', [(''https://example.org/notes/index.html'', page ''notes'')])]"

definition offline_cached :: storage where
  \<comment> \<open>a static store holding the offline document only\<close>
  "offline_cached =
     [(''static-v1.0.7'', [(''https://example.org/pwa/offline.html'', page ''offline'')])]"

definition css_cached :: storage where
  "css_cached = [(''static-v1.0.7'', [(''https://example.org/app.css'', page ''css'')])]"

definition app_css :: request where
  "app_css = page_request ''/app.css'' ''no-cors'' ''style'' []"

definition new_css :: request where
  "new_css = page_request ''/new.css'' ''no-cors'' ''style'' []"

definition full_static_store :: storage where
  \<comment> \<open>the static store at its cap of 100 entries, \<open>/app.css\<close> the oldest\<close>
  "full_static_store =
     [(''static-v1.0.7'',
       (''https://example.org/app.css'', page ''css'') #
       map (\<lambda>d. (''https://example.org/img/'' @ d @ ''.png'', page ''img''))
         (tl (concat (map (\<lambda>a. map (\<lambda>b. [a, b]) ''0123456789'') ''0123456789''))))]"

definition after_new_css :: storage where
  \<comment> \<open>that store once \<open>/new.css\<close> has come in and \<open>/app.css\<close> has gone\<close>
  "after_new_css =
     [(''static-v1.0.7'',
       map (\<lambda>d. (''https://example.org/img/'' @ d @ ''.png'', page ''img''))
         (tl (concat (map (\<lambda>a. map (\<lambda>b. [a, b]) ''0123456789'') ''0123456789'')))
       @ [(''https://example.org/new.css'', page ''new'')])]"

definition libs_json :: request where
  "libs_json = page_request ''/site_libs/search/index.json'' ''cors'' [] []"

definition search_json :: request where
  \<comment> \<open>the page's \<open>fetch\<close> of the search index\<close>
  "search_json = page_request ''/data/search.json'' ''cors'' [] []"

definition theme_css :: request where
  "theme_css = page_request ''/theming/dark.css'' ''no-cors'' ''style'' []"

definition no_cors_probe :: request where
  "no_cors_probe =
     page_request ''/notes/data.txt'' ''no-cors'' [] [(''Sec-Fetch-Dest'', ''empty'')]"

definition cors_probe :: request where
  "cors_probe =
     page_request ''/notes/data.txt'' ''cors'' [] [(''Sec-Fetch-Dest'', ''empty'')]"

definition notes_page :: request where
  "notes_page = page_request ''/notes/'' ''navigate'' ''document'' []"

definition cross_site :: request where
  "cross_site =
     \<lparr>req_url = \<lparr>origin = ''https://cdn.example.net'', pathname = ''/lib.js'',
                  search = [], hash = []\<rparr>,
      mode = ''no-cors'', destination = ''script'', headers = []\<rparr>"

section \<open>Properties\<close>

subsection \<open>Cache operations\<close>

lemma fold_entries_delete:
  "fold entries_delete ks c = filter (\<lambda>e. fst e \<notin> set ks) c"
  by (induction ks arbitrary: c) (auto simp: entries_delete_def intro: filter_cong)

lemma cache_update_comp:
  "cache_update name f (cache_update name g st) = cache_update name (f \<circ> g) st"
  by (induction st) (auto simp: cache_update_def)

lemma cache_update_id: "cache_update name (\<lambda>c. c) st = st"
  by (induction st) (auto simp: cache_update_def)

lemma fold_cache_delete:
  "fold (cache_delete name) ks st = cache_update name (fold entries_delete ks) st"
proof (induction ks arbitrary: st)
  case Nil
  show ?case by (simp add: cache_update_id)
next
  case (Cons k ks)
  show ?case
    by (simp add: Cons.IH) (simp add: cache_delete_def cache_update_comp comp_def)
qed

lemma map_of_cache_update_same:
  "map_of (cache_update name f st) name = map_option f (map_of st name)"
  by (induction st) (auto simp: cache_update_def)

lemma map_of_cache_update_other:
  "n \<noteq> name \<Longrightarrow> map_of (cache_update name f st) n = map_of st n"
  by (induction st) (auto simp: cache_update_def)

lemma caches_open_existing: "map_of st name = Some c \<Longrightarrow> caches_open name st = st"
  by (auto simp: caches_open_def caches_keys_def dest: map_of_SomeD intro: rev_image_eqI)

lemma cache_of_existing: "map_of st name = Some c \<Longrightarrow> cache_of st name = c"
  by (simp add: cache_of_def)

text \<open>The keys of a cache stay distinct under the two operations that change it.\<close>

lemma distinct_entries_delete:
  "distinct (cache_keys c) \<Longrightarrow> distinct (cache_keys (entries_delete k c))"
  by (simp add: cache_keys_def entries_delete_def distinct_map_filter)

lemma distinct_entries_put:
  "distinct (cache_keys c) \<Longrightarrow> distinct (cache_keys (entries_put k r c))"
  by (auto simp: cache_keys_def entries_put_def entries_delete_def distinct_map_filter)

subsection \<open>Trimming\<close>

lemma filter_not_in_take_keys:
  "distinct (map fst c) \<Longrightarrow> filter (\<lambda>e. fst e \<notin> set (take n (map fst c))) c = drop n c"
proof (induction c arbitrary: n)
  case Nil
  show ?case by simp
next
  case (Cons e c)
  show ?case
  proof (cases n)
    case 0
    then show ?thesis by simp
  next
    case (Suc m)
    have notin: "fst e \<notin> fst ` set c" using Cons.prems by simp
    have "filter (\<lambda>x. fst x \<noteq> fst e \<and> fst x \<notin> set (take m (map fst c))) c
          = filter (\<lambda>x. fst x \<notin> set (take m (map fst c))) c"
    proof (intro filter_cong refl)
      fix x assume "x \<in> set c"
      then have "fst x \<noteq> fst e" using notin by (metis imageI)
      then show "(fst x \<noteq> fst e \<and> fst x \<notin> set (take m (map fst c)))
                 = (fst x \<notin> set (take m (map fst c)))" by simp
    qed
    also have "\<dots> = drop m c" using Cons.prems by (intro Cons.IH) simp
    finally show ?thesis using Suc by simp
  qed
qed

lemma limitCacheSize_lookup:
  assumes "map_of st name = Some c" and "distinct (cache_keys c)"
  shows "map_of (limitCacheSize name C st) name
           = Some (if C < length c then drop (length c - C) c else c)"
proof (cases "C < length c")
  case False
  then show ?thesis
    using assms(1)
    by (simp add: limitCacheSize_def Let_def caches_open_existing cache_of_existing cache_keys_def)
next
  case True
  have d: "distinct (map fst c)" using assms(2) by (simp add: cache_keys_def)
  have "limitCacheSize name C st
          = cache_update name (fold entries_delete (take (length c - C) (map fst c))) st"
    using True assms(1)
    by (simp add: limitCacheSize_def Let_def caches_open_existing cache_of_existing
        cache_keys_def slice_def fold_cache_delete)
  then have "map_of (limitCacheSize name C st) name
          = Some (fold entries_delete (take (length c - C) (map fst c)) c)"
    using assms(1) by (simp add: map_of_cache_update_same)
  also have "fold entries_delete (take (length c - C) (map fst c)) c = drop (length c - C) c"
    by (simp add: fold_entries_delete filter_not_in_take_keys [OF d])
  finally show ?thesis using True by simp
qed

lemma limitCacheSize_under_cap:
  assumes "map_of st name = Some c" and "length c \<le> C"
  shows "limitCacheSize name C st = st"
  using assms
  by (simp add: limitCacheSize_def Let_def caches_open_existing cache_of_existing cache_keys_def)

lemma keys_removed_by_drop:
  assumes "distinct (ks :: 'a list)"
  shows "set ks - set (drop m ks) = set (take m ks)"
proof -
  have "set (take m ks) \<inter> set (drop m ks) = {}"
    using assms by (simp add: set_take_disj_set_drop_if_distinct)
  moreover have "set ks = set (take m ks) \<union> set (drop m ks)"
    by (metis append_take_drop_id set_append)
  ultimately show ?thesis by blast
qed

text \<open>
  Claim C3. A store \<open>c\<close> of \<open>N\<close> entries in insertion order (its keys distinct, as the
  cache keeps them) is trimmed with cap \<open>C\<close>: when \<open>N > C\<close> the store left is \<open>c\<close> without
  its first \<open>N - C\<close> entries, it has exactly \<open>C\<close> entries, and the keys that went are
  the first \<open>N - C\<close> keys; when \<open>N \<le> C\<close> nothing changes.
\<close>

theorem limitCacheSize_fifo:
  assumes "map_of st cacheName = Some c" and "distinct (cache_keys c)"
  shows "(C < length c \<longrightarrow>
            cache_of (limitCacheSize cacheName C st) cacheName = drop (length c - C) c
          \<and> length (cache_of (limitCacheSize cacheName C st) cacheName) = C
          \<and> set (cache_keys c) - set (cache_keys (cache_of (limitCacheSize cacheName C st) cacheName))
              = set (take (length c - C) (cache_keys c)))
       \<and> (length c \<le> C \<longrightarrow> limitCacheSize cacheName C st = st)"
proof -
  have keep: "cache_of (limitCacheSize cacheName C st) cacheName = drop (length c - C) c"
    if "C < length c"
    using limitCacheSize_lookup [OF assms, of C] that by (simp add: cache_of_def)
  have gone: "set (cache_keys c) - set (cache_keys (drop (length c - C) c))
              = set (take (length c - C) (cache_keys c))"
    using keys_removed_by_drop [OF assms(2), of "length c - C"]
    by (simp add: cache_keys_def drop_map)
  show ?thesis
    using keep gone limitCacheSize_under_cap [OF assms(1), of C] by simp
qed

theorem limitCacheSize_fifo_witness:
  "map_of [(RUNTIME_CACHE CACHE_VERSION, three_pages)] (RUNTIME_CACHE CACHE_VERSION) = Some three_pages
   \<and> distinct (cache_keys three_pages)
   \<and> 2 < length three_pages
   \<and> cache_of (limitCacheSize (RUNTIME_CACHE CACHE_VERSION) 2 [(RUNTIME_CACHE CACHE_VERSION, three_pages)])
        (RUNTIME_CACHE CACHE_VERSION) = drop 1 three_pages
   \<and> length three_pages \<le> 3
   \<and> limitCacheSize (RUNTIME_CACHE CACHE_VERSION) 3 [(RUNTIME_CACHE CACHE_VERSION, three_pages)]
       = [(RUNTIME_CACHE CACHE_VERSION, three_pages)]"
  using limitCacheSize_fifo [of "[(RUNTIME_CACHE CACHE_VERSION, three_pages)]"
      "RUNTIME_CACHE CACHE_VERSION" three_pages 2]
    limitCacheSize_fifo [of "[(RUNTIME_CACHE CACHE_VERSION, three_pages)]"
      "RUNTIME_CACHE CACHE_VERSION" three_pages 3]
  by (simp add: three_pages_def cache_keys_def)

subsection \<open>Activation\<close>

lemma fold_caches_delete:
  "fold caches_delete ks st = filter (\<lambda>e. fst e \<notin> set ks) st"
  by (induction ks arbitrary: st) (auto simp: caches_delete_def intro: filter_cong)

lemma activate_filter:
  "activate ver st = filter (\<lambda>e. fst e = STATIC_CACHE ver \<or> fst e = RUNTIME_CACHE ver) st"
  unfolding activate_def fold_caches_delete stale_caches_def caches_keys_def
  by (rule filter_cong) auto

lemma map_of_filter_fst:
  "map_of (filter (\<lambda>e. P (fst e)) st) k = (if P k then map_of st k else None)"
  by (induction st) auto

lemma store_names_differ:
  "STATIC_CACHE a \<noteq> RUNTIME_CACHE b"
  "(STATIC_CACHE a = STATIC_CACHE b) = (a = b)"
  "(RUNTIME_CACHE a = RUNTIME_CACHE b) = (a = b)"
  by (simp_all add: STATIC_CACHE_def RUNTIME_CACHE_def)

text \<open>
  Claim C7. The activate handler calls \<open>caches.delete\<close> on exactly the store names that
  differ from both the current static and the current runtime name; the storage it
  leaves is the old one without those stores, so the two current stores keep their
  entries; and the stores named after any other version identifier are gone.
\<close>

theorem activate_removes_other_versions:
  "set (stale_caches ver st)
     = {k. k \<in> set (caches_keys st) \<and> k \<noteq> STATIC_CACHE ver \<and> k \<noteq> RUNTIME_CACHE ver}
   \<and> activate ver st = filter (\<lambda>e. fst e \<notin> set (stale_caches ver st)) st
   \<and> map_of (activate ver st) (STATIC_CACHE ver) = map_of st (STATIC_CACHE ver)
   \<and> map_of (activate ver st) (RUNTIME_CACHE ver) = map_of st (RUNTIME_CACHE ver)
   \<and> (old \<noteq> ver \<longrightarrow>
        STATIC_CACHE old \<notin> set (caches_keys (activate ver st)) \<and>
        RUNTIME_CACHE old \<notin> set (caches_keys (activate ver st)))"
proof -
  have a: "set (stale_caches ver st)
     = {k. k \<in> set (caches_keys st) \<and> k \<noteq> STATIC_CACHE ver \<and> k \<noteq> RUNTIME_CACHE ver}"
    by (auto simp: stale_caches_def)
  have b: "activate ver st = filter (\<lambda>e. fst e \<notin> set (stale_caches ver st)) st"
    by (simp add: activate_def fold_caches_delete)
  have c: "map_of (activate ver st) (STATIC_CACHE ver) = map_of st (STATIC_CACHE ver)"
    unfolding activate_filter
    using map_of_filter_fst [of "\<lambda>n. n = STATIC_CACHE ver \<or> n = RUNTIME_CACHE ver" st "STATIC_CACHE ver"]
    by simp
  have d: "map_of (activate ver st) (RUNTIME_CACHE ver) = map_of st (RUNTIME_CACHE ver)"
    unfolding activate_filter
    using map_of_filter_fst [of "\<lambda>n. n = STATIC_CACHE ver \<or> n = RUNTIME_CACHE ver" st "RUNTIME_CACHE ver"]
    by simp
  have e: "old \<noteq> ver \<longrightarrow>
        STATIC_CACHE old \<notin> set (caches_keys (activate ver st)) \<and>
        RUNTIME_CACHE old \<notin> set (caches_keys (activate ver st))"
    by (auto simp: activate_filter caches_keys_def store_names_differ
        store_names_differ(1) [symmetric])
  show ?thesis using a b c d e by blast
qed

theorem activate_removes_other_versions_witness:
  "''v1.0.6'' \<noteq> CACHE_VERSION
   \<and> STATIC_CACHE ''v1.0.6'' \<notin> set (caches_keys (activate CACHE_VERSION old_and_new_stores))
   \<and> RUNTIME_CACHE ''v1.0.6'' \<notin> set (caches_keys (activate CACHE_VERSION old_and_new_stores))
   \<and> activate CACHE_VERSION old_and_new_stores
       = [(''static-v1.0.7'', three_pages), (''runtime-v1.0.7'', [])]"
  using activate_removes_other_versions [of CACHE_VERSION old_and_new_stores "''v1.0.6''"]
  by (simp add: CACHE_VERSION_def old_and_new_stores_def stale_caches_def caches_keys_def
      STATIC_CACHE_def RUNTIME_CACHE_def)

subsection \<open>Routing\<close>

lemma str_includes_iff: "str_includes s sub \<longleftrightarrow> (\<exists>p q. s = p @ sub @ q)"
  by (simp add: str_includes_def sublist_def)

lemma json_includes_js:
  assumes "endsWith (pathname u) ''.json''"
  shows "str_includes (href u) ''.js''"
proof -
  from assms obtain p where p: "pathname u = p @ ''.json''"
    by (auto simp: endsWith_def suffix_def)
  have "href u = (origin u @ p) @ ''.js'' @ (''on'' @ search u @ hash u)"
    by (simp add: href_def p)
  then show ?thesis unfolding str_includes_iff by blast
qed

lemma json_isStaticAsset:
  "endsWith (pathname (req_url req)) ''.json'' \<Longrightarrow> isStaticAsset req"
  by (simp add: isStaticAsset_def staticExtensions_def json_includes_js)

lemma isStaticAsset_iff:
  "isStaticAsset req \<longleftrightarrow>
     (\<exists>ext p q. ext \<in> set staticExtensions \<and> href (req_url req) = p @ ext @ q)"
  by (auto simp: isStaticAsset_def list_ex_iff str_includes_iff)

lemma never_NetworkFirst: "fetch_strategy w req \<noteq> NetworkFirst"
  by (simp add: fetch_strategy_def Let_def json_isStaticAsset)

text \<open>
  Claim C2, as stated, at a same-origin request for a \<open>.json\<close> file under
  \<open>/site_libs/\<close>: it is a static asset, but the listener's test for \<open>/site_libs/\<close> comes
  first and the request is answered by \<open>staleWhileRevalidate\<close>, not by \<open>cacheFirst\<close>.
\<close>

theorem json_under_site_libs_not_cacheFirst:
  "endsWith (pathname (req_url libs_json)) ''.json''
   \<and> isStaticAsset libs_json
   \<and> fetch_strategy (worker_with True (Fails 10)) libs_json = StaleWhileRevalidate
   \<and> on_fetch (worker_with True (Fails 10)) libs_json []
       = staleWhileRevalidate (worker_with True (Fails 10)) libs_json []"
  by code_simp

text \<open>
  Claim C2, amended. \<open>isStaticAsset\<close> holds exactly when the request's URL string
  contains one of the listed extensions somewhere. A request whose path ends in \<open>.json\<close>
  is therefore a static asset (its URL contains \<open>.js\<close>), never takes the network-first
  branch, and, when none of the listener's earlier branches takes it (it is same-origin,
  fails both bypass tests, is not under \<open>/theming/\<close> or \<open>/site_libs/\<close> and is not a
  navigation), is answered by \<open>cacheFirst\<close>.
\<close>

theorem json_requests_take_cacheFirst:
  "(isStaticAsset req \<longleftrightarrow>
      (\<exists>ext p q. ext \<in> set staticExtensions \<and> href (req_url req) = p @ ext @ q))
   \<and> (endsWith (pathname (req_url req)) ''.json'' \<longrightarrow>
        isStaticAsset req
      \<and> fetch_strategy w req \<noteq> NetworkFirst
      \<and> (origin (req_url req) = location_origin w
         \<and> \<not> (str_includes (pathname (req_url req)) ''print'' \<or>
               str_includes (search (req_url req)) ''print'' \<or>
               (headers_get (headers req) ''Sec-Fetch-Dest'' = Some ''empty'' \<and>
                mode req = ''cors''))
         \<and> \<not> (mode req = ''print'' \<or>
               (destination req = ''document'' \<and>
                headers_get (headers req) ''Sec-Fetch-Dest'' = Some ''document''))
         \<and> \<not> (str_includes (pathname (req_url req)) ''/theming/'' \<or>
               str_includes (pathname (req_url req)) ''/site_libs/'')
         \<and> mode req \<noteq> ''navigate'' \<longrightarrow>
           fetch_strategy w req = CacheFirst \<and> on_fetch w req st = cacheFirst w req st))"
proof -
  have routed: "fetch_strategy w req = CacheFirst \<and> on_fetch w req st = cacheFirst w req st"
    if "isStaticAsset req"
      and "origin (req_url req) = location_origin w"
      and "\<not> (str_includes (pathname (req_url req)) ''print'' \<or>
               str_includes (search (req_url req)) ''print'' \<or>
               (headers_get (headers req) ''Sec-Fetch-Dest'' = Some ''empty'' \<and>
                mode req = ''cors''))"
      and "\<not> (mode req = ''print'' \<or>
               (destination req = ''document'' \<and>
                headers_get (headers req) ''Sec-Fetch-Dest'' = Some ''document''))"
      and "\<not> (str_includes (pathname (req_url req)) ''/theming/'' \<or>
               str_includes (pathname (req_url req)) ''/site_libs/'')"
      and "mode req \<noteq> ''navigate''"
  proof -
    have "fetch_strategy w req = CacheFirst"
      unfolding fetch_strategy_def Let_def using that by simp
    then show ?thesis by (simp add: on_fetch_def)
  qed
  show ?thesis
    using routed never_NetworkFirst [of w req] isStaticAsset_iff [of req]
      json_isStaticAsset [of req]
    by blast
qed

theorem json_requests_take_cacheFirst_witness:
  "endsWith (pathname (req_url search_json)) ''.json''
   \<and> origin (req_url search_json) = location_origin (worker_with True (Fails 10))
   \<and> \<not> (str_includes (pathname (req_url search_json)) ''print'' \<or>
         str_includes (search (req_url search_json)) ''print'' \<or>
         (headers_get (headers search_json) ''Sec-Fetch-Dest'' = Some ''empty'' \<and>
          mode search_json = ''cors''))
   \<and> \<not> (mode search_json = ''print'' \<or>
         (destination search_json = ''document'' \<and>
          headers_get (headers search_json) ''Sec-Fetch-Dest'' = Some ''document''))
   \<and> \<not> (str_includes (pathname (req_url search_json)) ''/theming/'' \<or>
         str_includes (pathname (req_url search_json)) ''/site_libs/'')
   \<and> mode search_json \<noteq> ''navigate''
   \<and> isStaticAsset search_json
   \<and> fetch_strategy (worker_with True (Fails 10)) search_json = CacheFirst
   \<and> on_fetch (worker_with True (Fails 10)) search_json []
       = cacheFirst (worker_with True (Fails 10)) search_json []"
proof -
  have h1: "endsWith (pathname (req_url search_json)) ''.json''" by code_simp
  have h2: "origin (req_url search_json) = location_origin (worker_with True (Fails 10))"
    by (simp add: search_json_def page_request_def worker_with_def)
  have h3: "\<not> (str_includes (pathname (req_url search_json)) ''print'' \<or>
         str_includes (search (req_url search_json)) ''print'' \<or>
         (headers_get (headers search_json) ''Sec-Fetch-Dest'' = Some ''empty'' \<and>
          mode search_json = ''cors''))"
    by code_simp
  have h4: "\<not> (mode search_json = ''print'' \<or>
         (destination search_json = ''document'' \<and>
          headers_get (headers search_json) ''Sec-Fetch-Dest'' = Some ''document''))"
    by code_simp
  have h5: "\<not> (str_includes (pathname (req_url search_json)) ''/theming/'' \<or>
         str_includes (pathname (req_url search_json)) ''/site_libs/'')"
    by code_simp
  have h6: "mode search_json \<noteq> ''navigate''" by code_simp
  show ?thesis
    using h1 h2 h3 h4 h5 h6
      json_requests_take_cacheFirst [of search_json "worker_with True (Fails 10)" "[]"]
    by blast
qed

text \<open>
  Claim C1, at the request the claim names: a same-origin request for
  \<open>/data/search.json\<close>, the network failing and the cache storage empty. The listener
  takes the static-asset branch, and \<open>cacheFirst\<close> answers with its 404 response
  \<open>Asset not found\<close>, not with the empty JSON object of \<open>networkFirst\<close>.
\<close>

theorem search_json_offline_is_404:
  "fetch_strategy (worker_with True (Fails 10)) search_json = CacheFirst
   \<and> on_fetch (worker_with True (Fails 10)) search_json []
       = \<lparr>result = Respond \<lparr>status = 404, statusText = [],
                     res_headers = [(''Content-Type'', ''text/plain;charset=UTF-8'')],
                     body = ''Asset not found''\<rparr>,
          fetched = [search_json], caches = []\<rparr>"
  by code_simp

text \<open>What \<open>networkFirst\<close> itself does there, were the request to reach it.\<close>

lemma networkFirst_offline_empty_json:
  "networkFirst (worker_with True (Fails 10)) search_json []
     = \<lparr>result = Respond \<lparr>status = 200, statusText = [],
                   res_headers = [(''Content-Type'', ''application/json'')], body = ''{}''\<rparr>,
        fetched = [search_json], caches = []\<rparr>"
  by code_simp

text \<open>
  Claim C4. A request whose origin is not the worker's is left alone: the listener
  returns without a response of its own, sends nothing to the network itself, and the
  cache storage is what it was.
\<close>

theorem cross_origin_untouched:
  assumes "origin (req_url req) \<noteq> location_origin w"
  shows "on_fetch w req st = \<lparr>result = NotIntercepted, fetched = [], caches = st\<rparr>"
  using assms by (simp add: on_fetch_def fetch_strategy_def Let_def)

theorem cross_origin_untouched_witness:
  "origin (req_url cross_site) \<noteq> location_origin (worker_with True (Arrives 10 (page ''x'')))
   \<and> on_fetch (worker_with True (Arrives 10 (page ''x''))) cross_site old_and_new_stores
       = \<lparr>result = NotIntercepted, fetched = [], caches = old_and_new_stores\<rparr>"
proof -
  have h: "origin (req_url cross_site)
             \<noteq> location_origin (worker_with True (Arrives 10 (page ''x'')))"
    by (simp add: cross_site_def worker_with_def site_def)
  show ?thesis using h cross_origin_untouched [OF h] by simp
qed

text \<open>
  Claim C10, as stated, at a same-origin no-cors request with the header
  \<open>Sec-Fetch-Dest: empty\<close>: the listener's test is for the mode \<open>cors\<close>, so the request
  falls through to the default strategy, and its response is written to the runtime
  store.
\<close>

theorem no_cors_empty_request_is_cached:
  "origin (req_url no_cors_probe) = location_origin (worker_with True (Arrives 10 (page ''x'')))
   \<and> mode no_cors_probe = ''no-cors''
   \<and> headers_get (headers no_cors_probe) ''Sec-Fetch-Dest'' = Some ''empty''
   \<and> fetch_strategy (worker_with True (Arrives 10 (page ''x''))) no_cors_probe
       = StaleWhileRevalidate
   \<and> caches (on_fetch (worker_with True (Arrives 10 (page ''x''))) no_cors_probe [])
       = [(''runtime-v1.0.7'', [(''https://example.org/notes/data.txt'', page ''x'')])]"
  by code_simp

text \<open>
  Claim C10, amended. A same-origin request whose path or query contains \<open>print\<close>, or
  which is a cors-mode request with the header \<open>Sec-Fetch-Dest: empty\<close>, takes the
  bypass branch: the listener answers with the network's own result for that request,
  and the cache storage is what it was.
\<close>

theorem print_requests_bypass:
  assumes "origin (req_url req) = location_origin w"
    and "str_includes (pathname (req_url req)) ''print'' \<or>
         str_includes (search (req_url req)) ''print'' \<or>
         (mode req = ''cors'' \<and> headers_get (headers req) ''Sec-Fetch-Dest'' = Some ''empty'')"
  shows "fetch_strategy w req = Bypass
       \<and> on_fetch w req st = fetch_direct w req st
       \<and> fetched (on_fetch w req st) = [req]
       \<and> caches (on_fetch w req st) = st"
proof -
  have s: "fetch_strategy w req = Bypass"
    using assms by (auto simp: fetch_strategy_def Let_def)
  show ?thesis by (simp add: s on_fetch_def fetch_direct_def)
qed

theorem print_requests_bypass_witness:
  "origin (req_url cors_probe) = location_origin (worker_with True (Arrives 10 (page ''x'')))
   \<and> mode cors_probe = ''cors''
   \<and> headers_get (headers cors_probe) ''Sec-Fetch-Dest'' = Some ''empty''
   \<and> fetch_strategy (worker_with True (Arrives 10 (page ''x''))) cors_probe = Bypass
   \<and> caches (on_fetch (worker_with True (Arrives 10 (page ''x''))) cors_probe []) = []"
proof -
  have a: "origin (req_url cors_probe)
             = location_origin (worker_with True (Arrives 10 (page ''x'')))"
    by (simp add: cors_probe_def page_request_def worker_with_def)
  have b: "mode cors_probe = ''cors''" by (simp add: cors_probe_def page_request_def)
  have c: "headers_get (headers cors_probe) ''Sec-Fetch-Dest'' = Some ''empty''"
    by code_simp
  show ?thesis
    using a b c
      print_requests_bypass [of cors_probe "worker_with True (Arrives 10 (page ''x''))" "[]"]
    by blast
qed

subsection \<open>Navigation\<close>

lemma offline_response:
  "new_Response ''Offline - Page not cached'' (Some 503) (Some ''Service Unavailable'')
     [(''Content-Type'', ''text/plain'')]
   = \<lparr>status = 503, statusText = ''Service Unavailable'',
      res_headers = [(''Content-Type'', ''text/plain'')],
      body = ''Offline - Page not cached''\<rparr>"
  by code_simp

text \<open>
  Claim C5. When the network fetch of a navigation request fails, never settles or
  resolves after more than 3000 ms, the handler answers with the cached copy of the
  page (looked up under the normalised URL, then under the request), else with the
  cached offline document, else with the 503 response \<open>Offline - Page not cached\<close>; the
  cache storage is what it was.
\<close>

theorem handleNavigation_fallback:
  assumes "net w req = Fails t \<or> net w req = Hangs \<or> (net w req = Arrives t res \<and> 3000 < t)"
  shows "result (handleNavigation w req st) =
           Respond
            (case caches_match st (url_key (normalizeNavigationUrl (req_url req))) of
               Some r \<Rightarrow> r
             | None \<Rightarrow>
                (case caches_match st (url_key (req_url req)) of
                   Some r \<Rightarrow> r
                 | None \<Rightarrow>
                    (case caches_match st (resolve_url (base_url w) OFFLINE_URL) of
                       Some offlinePage \<Rightarrow> offlinePage
                     | None \<Rightarrow>
                        \<lparr>status = 503, statusText = ''Service Unavailable'',
                         res_headers = [(''Content-Type'', ''text/plain'')],
                         body = ''Offline - Page not cached''\<rparr>)))
       \<and> caches (handleNavigation w req st) = st"
proof -
  have race: "race_timeout (net w req) = None"
    using assms by (auto simp: race_timeout_def)
  show ?thesis
    by (simp add: handleNavigation_def handleNavigation_catch_def Let_def race
        offline_response split: option.splits)
qed

theorem handleNavigation_fallback_witness:
  "net (worker_with True (Arrives 5000 (page ''late''))) notes_page = Arrives 5000 (page ''late'')
   \<and> (3000::nat) < 5000
   \<and> result (handleNavigation (worker_with True (Arrives 5000 (page ''late''))) notes_page
        notes_cached)
       = Respond (page ''notes'')
   \<and> result (handleNavigation (worker_with True (Arrives 5000 (page ''late''))) notes_page
        offline_cached)
       = Respond (page ''offline'')
   \<and> result (handleNavigation (worker_with True (Arrives 5000 (page ''late''))) notes_page [])
       = Respond \<lparr>status = 503, statusText = ''Service Unavailable'',
                  res_headers = [(''Content-Type'', ''text/plain'')],
                  body = ''Offline - Page not cached''\<rparr>"
proof -
  have n: "net (worker_with True (Arrives 5000 (page ''late''))) notes_page
             = Arrives 5000 (page ''late'')"
    by (simp add: worker_with_def)
  have k1: "caches_match notes_cached (url_key (normalizeNavigationUrl (req_url notes_page)))
              = Some (page ''notes'')"
    by code_simp
  have k2: "caches_match offline_cached (url_key (normalizeNavigationUrl (req_url notes_page)))
              = None"
    by code_simp
  have k3: "caches_match offline_cached (url_key (req_url notes_page)) = None"
    by code_simp
  have k4: "caches_match offline_cached
              (resolve_url (base_url (worker_with True (Arrives 5000 (page ''late'')))) OFFLINE_URL)
              = Some (page ''offline'')"
    by code_simp
  show ?thesis
    using n k1 k2 k3 k4
      handleNavigation_fallback [of "worker_with True (Arrives 5000 (page ''late''))"
        notes_page 5000 "page ''late''" notes_cached]
      handleNavigation_fallback [of "worker_with True (Arrives 5000 (page ''late''))"
        notes_page 5000 "page ''late''" offline_cached]
      handleNavigation_fallback [of "worker_with True (Arrives 5000 (page ''late''))"
        notes_page 5000 "page ''late''" "[]"]
    by simp
qed

text \<open>
  Claim C6. When the client is offline and the cache storage has a match for the
  navigation request, under the normalised URL or else under the request itself, the
  handler answers with that match, sends nothing to the network, and the cache storage
  is what it was.
\<close>

theorem handleNavigation_offline_cached:
  assumes "\<not> onLine w"
    and "caches_match st (url_key (normalizeNavigationUrl (req_url req))) = Some r \<or>
         (caches_match st (url_key (normalizeNavigationUrl (req_url req))) = None \<and>
          caches_match st (url_key (req_url req)) = Some r)"
  shows "handleNavigation w req st = \<lparr>result = Respond r, fetched = [], caches = st\<rparr>"
  using assms by (auto simp: handleNavigation_def Let_def)

theorem handleNavigation_offline_cached_witness:
  "\<not> onLine (worker_with False Hangs)
   \<and> caches_match notes_cached (url_key (normalizeNavigationUrl (req_url notes_page)))
       = Some (page ''notes'')
   \<and> handleNavigation (worker_with False Hangs) notes_page notes_cached
       = \<lparr>result = Respond (page ''notes''), fetched = [], caches = notes_cached\<rparr>"
proof -
  have k1: "caches_match notes_cached (url_key (normalizeNavigationUrl (req_url notes_page)))
              = Some (page ''notes'')"
    by code_simp
  have off: "\<not> onLine (worker_with False Hangs)" by (simp add: worker_with_def)
  show ?thesis
    using k1 off
      handleNavigation_offline_cached [of "worker_with False Hangs" notes_cached notes_page
        "page ''notes''"]
    by simp
qed

subsection \<open>Cache first\<close>

lemma caches_match_update_hit:
  assumes "caches_match st k = None" and "name \<in> fst ` set st"
    and "\<And>c. map_of c k = None \<Longrightarrow> map_of (f c) k = Some r"
  shows "caches_match (cache_update name f st) k = Some r"
  using assms(1,2)
proof (induction st)
  case Nil
  then show ?case by simp
next
  case (Cons e st)
  have miss: "map_of (snd e) k = None" and rest: "caches_match st k = None"
    using Cons.prems(1) by (auto simp: cache_match_def split: option.splits)
  show ?case
  proof (cases "fst e = name")
    case True
    then show ?thesis
      using assms(3) [OF miss] by (simp add: cache_update_def cache_match_def)
  next
    case False
    then have "name \<in> fst ` set st" using Cons.prems(2) by auto
    from Cons.IH [OF rest this] show ?thesis
      using False miss by (simp add: cache_update_def cache_match_def)
  qed
qed

lemma caches_open_names: "name \<in> fst ` set (caches_open name st)"
  by (auto simp: caches_open_def caches_keys_def)

lemma caches_match_caches_open:
  "caches_match (caches_open name st) k = caches_match st k"
proof -
  have "caches_match (st @ [(name, [])]) k = caches_match st k"
    by (induction st) (auto simp: cache_match_def split: option.splits)
  then show ?thesis by (simp add: caches_open_def)
qed

lemma cache_update_names: "fst ` set (cache_update name f st) = fst ` set st"
  by (induction st) (auto simp: cache_update_def)

lemma caches_open_idem:
  "name \<in> fst ` set st \<Longrightarrow> caches_open name st = st"
  by (simp add: caches_open_def caches_keys_def)

text \<open>
  A put that is accepted, followed by a trim, is one update of the named cache, and with
  a positive cap the trim does not delete the key just put: it is the newest.
\<close>

lemma put_then_trim:
  assumes "name \<in> fst ` set st"
  shows "\<exists>ks. limitCacheSize name C (cache_update name (entries_put k r) st)
           = cache_update name (fold entries_delete ks \<circ> entries_put k r) st
         \<and> (0 < C \<longrightarrow> k \<notin> set ks)"
proof -
  let ?st2 = "cache_update name (entries_put k r) st"
  let ?keys = "cache_keys (cache_of ?st2 name)"
  from assms obtain c0 where c0: "map_of st name = Some c0"
    by (metis domD dom_map_of_conv_image_fst)
  have opened: "caches_open name ?st2 = ?st2"
    using assms by (simp add: caches_open_idem cache_update_names)
  have keys: "?keys = map fst (entries_delete k c0) @ [k]"
    by (simp add: cache_of_def map_of_cache_update_same c0 cache_keys_def
        entries_put_def)
  have notin: "k \<notin> set (map fst (entries_delete k c0))"
    by (auto simp: entries_delete_def)
  show ?thesis
  proof (cases "C < length ?keys")
    case False
    then have "limitCacheSize name C ?st2 = ?st2"
      by (simp add: limitCacheSize_def Let_def opened)
    then have "limitCacheSize name C ?st2
           = cache_update name (fold entries_delete [] \<circ> entries_put k r) st"
      by (simp add: comp_def)
    then show ?thesis by (metis empty_iff list.set(1))
  next
    case True
    let ?ks = "take (length ?keys - C) ?keys"
    have "limitCacheSize name C ?st2 = cache_update name (fold entries_delete ?ks) ?st2"
      using True by (simp add: limitCacheSize_def Let_def opened slice_def fold_cache_delete)
    then have eq: "limitCacheSize name C ?st2
           = cache_update name (fold entries_delete ?ks \<circ> entries_put k r) st"
      by (simp add: cache_update_comp)
    have "k \<notin> set ?ks" if "0 < C"
    proof -
      have "length ?keys - C \<le> length (map fst (entries_delete k c0))"
        using that by (simp add: keys)
      then have "?ks = take (length ?keys - C) (map fst (entries_delete k c0))"
        by (simp add: keys)
      then show ?thesis using notin by (metis in_set_takeD)
    qed
    with eq show ?thesis by blast
  qed
qed

lemma map_of_trimmed_put:
  assumes "k \<notin> set ks"
  shows "map_of ((fold entries_delete ks \<circ> entries_put k r) c) k = Some r"
proof -
  have "map_of (filter (\<lambda>e. fst e \<notin> set ks) (filter (\<lambda>e. fst e \<noteq> k) c @ [(k, r)])) k = Some r"
    using assms by (induction c) auto
  then show ?thesis
    by (simp add: fold_entries_delete entries_put_def entries_delete_def)
qed

lemma stored_then_matched:
  assumes "caches_match st k = None" and "0 < C"
  shows "caches_match
           (limitCacheSize name C (cache_update name (entries_put k r) (caches_open name st))) k
         = Some r"
proof -
  let ?st1 = "caches_open name st"
  obtain ks where eq: "limitCacheSize name C (cache_update name (entries_put k r) ?st1)
           = cache_update name (fold entries_delete ks \<circ> entries_put k r) ?st1"
    and notin: "k \<notin> set ks"
    using put_then_trim [OF caches_open_names, of name C k r st] assms(2) by blast
  have "caches_match ?st1 k = None"
    using assms(1) by (simp add: caches_match_caches_open)
  then show ?thesis
    unfolding eq
    by (rule caches_match_update_hit [OF _ caches_open_names]) (rule map_of_trimmed_put [OF notin])
qed

text \<open>
  Claim C9, as stated, at a static store that holds its 100 entries, the stylesheet
  \<open>/app.css\<close> the oldest of them: the request for another stylesheet, answered by the
  network, is stored and the trim evicts \<open>/app.css\<close>; the store still holds 100
  entries, and the repeated request for \<open>/app.css\<close> goes to the network again.
\<close>

theorem cached_asset_evicted_by_trim:
  "fetch_strategy (worker_with True Hangs) app_css = CacheFirst
   \<and> fetch_strategy (worker_with True (Arrives 10 (page ''new''))) new_css = CacheFirst
   \<and> caches_match full_static_store (url_key (req_url app_css)) = Some (page ''css'')
   \<and> fetched (on_fetch (worker_with True Hangs) app_css full_static_store) = []
   \<and> length (cache_of
        (caches (on_fetch (worker_with True (Arrives 10 (page ''new''))) new_css full_static_store))
        (STATIC_CACHE CACHE_VERSION)) = 100
   \<and> fetched (on_fetch (worker_with True Hangs) app_css
        (caches (on_fetch (worker_with True (Arrives 10 (page ''new''))) new_css full_static_store)))
       = [app_css]"
proof -
  have a: "fetch_strategy (worker_with True Hangs) app_css = CacheFirst" by code_simp
  have b: "fetch_strategy (worker_with True (Arrives 10 (page ''new''))) new_css = CacheFirst"
    by code_simp
  have c: "caches_match full_static_store (url_key (req_url app_css)) = Some (page ''css'')"
    by code_simp
  have d: "fetched (on_fetch (worker_with True Hangs) app_css full_static_store) = []"
    by code_simp
  have mid: "caches (on_fetch (worker_with True (Arrives 10 (page ''new''))) new_css
               full_static_store) = after_new_css"
    by code_simp
  have e: "length (cache_of after_new_css (STATIC_CACHE CACHE_VERSION)) = 100" by code_simp
  have f: "fetched (on_fetch (worker_with True Hangs) app_css after_new_css) = [app_css]"
    by code_simp
  show ?thesis using a b c d e f by (simp add: mid)
qed

text \<open>
  Claim C9, amended. When the cache storage has an entry for the request, \<open>cacheFirst\<close>
  answers with it, sends nothing to the network and leaves the storage as it was, so
  however often the same request is repeated (whatever the network does by then) the
  storage stays and the next repeat is answered the same way: a cached asset is served
  without network contact for as long as its entry is in the storage. And when there
  is no entry and the network answers with an ok response that \<open>cache.put\<close> accepts, the
  storage \<open>cacheFirst\<close> leaves holds that response, and the same request repeated is
  answered with it, with nothing sent to the network.
\<close>

theorem cacheFirst_hit_no_network:
  "(caches_match st (url_key (req_url req)) = Some r \<longrightarrow>
      cacheFirst w req st = \<lparr>result = Respond r, fetched = [], caches = st\<rparr>
    \<and> foldl (\<lambda>s v. caches (cacheFirst v req s)) st ws = st
    \<and> cacheFirst w' req (foldl (\<lambda>s v. caches (cacheFirst v req s)) st ws)
        = \<lparr>result = Respond r, fetched = [], caches = st\<rparr>)
   \<and> (caches_match st (url_key (req_url req)) = None \<and> net w req = Arrives t res \<and> ok res \<and>
      \<not> put_rejects res \<longrightarrow>
      cacheFirst w' req (caches (cacheFirst w req st))
        = \<lparr>result = Respond res, fetched = [], caches = caches (cacheFirst w req st)\<rparr>)"
proof -
  have hit: "cacheFirst v req s = \<lparr>result = Respond x, fetched = [], caches = s\<rparr>"
    if "caches_match s (url_key (req_url req)) = Some x" for v s x
    using that by (simp add: cacheFirst_def)
  have repeats: "foldl (\<lambda>s v. caches (cacheFirst v req s)) st ws = st"
    if "caches_match st (url_key (req_url req)) = Some r"
    by (induction ws) (simp_all add: hit [OF that])
  have stored: "caches_match (caches (cacheFirst w req st)) (url_key (req_url req)) = Some res"
    if "caches_match st (url_key (req_url req)) = None" "net w req = Arrives t res" "ok res"
      "\<not> put_rejects res"
    using that stored_then_matched [OF that(1), of MAX_STATIC_ITEMS]
    by (simp add: cacheFirst_def cache_put_def MAX_STATIC_ITEMS_def)
  show ?thesis
    using hit [of st r w] hit [of st r w'] repeats hit [OF stored, of w'] by simp
qed

theorem cacheFirst_hit_no_network_witness:
  "caches_match css_cached (url_key (req_url app_css)) = Some (page ''css'')
   \<and> cacheFirst (worker_with True Hangs) app_css css_cached
       = \<lparr>result = Respond (page ''css''), fetched = [], caches = css_cached\<rparr>
   \<and> cacheFirst (worker_with True Hangs) app_css
        (foldl (\<lambda>s v. caches (cacheFirst v app_css s)) css_cached
           [worker_with True (Fails 10), worker_with False Hangs])
       = \<lparr>result = Respond (page ''css''), fetched = [], caches = css_cached\<rparr>
   \<and> caches_match [] (url_key (req_url app_css)) = None
   \<and> net (worker_with True (Arrives 10 (page ''css''))) app_css = Arrives 10 (page ''css'')
   \<and> ok (page ''css'')
   \<and> \<not> put_rejects (page ''css'')
   \<and> cacheFirst (worker_with True Hangs) app_css
        (caches (cacheFirst (worker_with True (Arrives 10 (page ''css''))) app_css []))
       = \<lparr>result = Respond (page ''css''), fetched = [], caches = css_cached\<rparr>"
proof -
  have a: "caches_match css_cached (url_key (req_url app_css)) = Some (page ''css'')"
    by code_simp
  have b: "caches_match [] (url_key (req_url app_css)) = None" by simp
  have c: "net (worker_with True (Arrives 10 (page ''css''))) app_css = Arrives 10 (page ''css'')"
    by (simp add: worker_with_def)
  have d: "ok (page ''css'')" by (simp add: ok_def page_def)
  have d': "\<not> put_rejects (page ''css'')" by code_simp
  have e: "caches (cacheFirst (worker_with True (Arrives 10 (page ''css''))) app_css [])
             = css_cached"
    by code_simp
  show ?thesis
    using a b c d d' e
      cacheFirst_hit_no_network [of css_cached app_css "page ''css''" "worker_with True Hangs"
        "[worker_with True (Fails 10), worker_with False Hangs]"
        "worker_with True Hangs" 10 "page ''css''"]
      cacheFirst_hit_no_network [of "[]" app_css "page ''css''"
        "worker_with True (Arrives 10 (page ''css''))" "[]" "worker_with True Hangs" 10
        "page ''css''"]
    by simp
qed

text \<open>
  A partial response is not stored: \<open>cache.put\<close> rejects, and \<open>cacheFirst\<close> answers with
  its 404 response.
\<close>

lemma cacheFirst_partial_response:
  "cacheFirst (worker_with True (Arrives 10 ((page ''part'')\<lparr>status := 206\<rparr>))) app_css []
     = \<lparr>result = Respond \<lparr>status = 404, statusText = [],
                   res_headers = [(''Content-Type'', ''text/plain;charset=UTF-8'')],
                   body = ''Asset not found''\<rparr>,
        fetched = [app_css], caches = [(''static-v1.0.7'', [])]\<rparr>"
  by code_simp

subsection \<open>Network failures\<close>

text \<open>
  On a failed fetch \<open>handleNavigation\<close>, \<open>cacheFirst\<close> and \<open>networkFirst\<close> each end their
  fallbacks in a response of their own making.
\<close>

lemma siblings_respond_on_failure:
  assumes "net w req = Fails t"
  shows "\<exists>r. result (handleNavigation w req st) = Respond r"
    and "\<exists>r. result (cacheFirst w req st) = Respond r"
    and "\<exists>r. result (networkFirst w req st) = Respond r"
  using assms
  by (simp_all add: handleNavigation_def handleNavigation_catch_def cacheFirst_def
      networkFirst_def networkFirst_catch_def race_timeout_def
      Let_def split: option.splits)

text \<open>
  \<open>staleWhileRevalidate\<close> does not: on a failed fetch its promise resolves with the
  value of \<open>cached\<close>, a response when the runtime store has the entry and \<open>undefined\<close>
  when it has not.
\<close>

lemma staleWhileRevalidate_on_failure:
  assumes "net w req = Fails t"
  shows "result (staleWhileRevalidate w req st)
           = (case cache_match
                     (cache_of (caches_open (RUNTIME_CACHE (cache_version w)) st)
                        (RUNTIME_CACHE (cache_version w)))
                     (url_key (req_url req)) of
                Some c \<Rightarrow> Respond c
              | None \<Rightarrow> Undefined)"
  using assms by (simp add: staleWhileRevalidate_def Let_def)

text \<open>
  Claim C8, at a same-origin request for a stylesheet under \<open>/theming/\<close>, the network
  failing and the cache storage empty: the listener answers through
  \<open>staleWhileRevalidate\<close>, whose promise resolves with \<open>undefined\<close>, not with a response.
\<close>

theorem staleWhileRevalidate_offline_no_response:
  "fetch_strategy (worker_with True (Fails 10)) theme_css = StaleWhileRevalidate
   \<and> on_fetch (worker_with True (Fails 10)) theme_css []
       = \<lparr>result = Undefined, fetched = [theme_css], caches = [(''runtime-v1.0.7'', [])]\<rparr>"
  by code_simp

end
